theory Spec2Isabelle
  imports Main
begin

section \<open>Data model\<close>

text \<open>
  Modelled from the spec: the five entities that \<^verbatim>\<open>posts/views.py\<close> imports from
  \<^verbatim>\<open>posts/models.py\<close>, which is not among the sources, with the attributes the
  handlers use and the spec's data model lists. A table is the list of its rows in
  insertion order. A model instance that has not been saved yet has no primary key, no
  creation time and (until the handler assigns them) no foreign keys: those attributes
  are \<open>None\<close> in Python and \<open>None\<close> here.
\<close>

record User =
  user_id :: nat
  username :: string

record Group =
  group_id :: nat
  title :: string
  slug :: string
  description :: string

record Post =
  post_id :: "nat option"
  post_text :: string
  pub_date :: "nat option"
  author_id :: "nat option"
  group_fk :: "nat option"
  post_image :: "string option"

record Comment =
  comment_id :: "nat option"
  comment_post :: "nat option"
  comment_author :: "nat option"
  comment_text :: string
  created :: "nat option"

record Follow =
  follow_id :: nat
  follow_user :: nat
  follow_author :: nat

record db =
  users :: "User list"
  groups :: "Group list"
  posts :: "Post list"
  comments :: "Comment list"
  follows :: "Follow list"
  next_post_id :: nat
  next_comment_id :: nat
  next_follow_id :: nat

section \<open>Requests and responses\<close>

type_synonym qdict = "(string \<times> string) list"

text \<open>
  An uploaded file of \<^verbatim>\<open>request.FILES\<close>: its name (never empty: the request parser
  leaves out a part without a file name), and whether it passes the checks an image field
  makes on the file itself (an image extension, a name within the length limit, content
  that is not empty and that the image library accepts). A stored image is identified by
  the name of the file that was uploaded; the directory and the suffix the storage may
  add to that name are not modelled.
\<close>

record upload =
  upload_name :: string
  upload_ok :: bool

type_synonym files = "(string \<times> upload) list"

text \<open>
  What \<^verbatim>\<open>int()\<close> makes of \<^verbatim>\<open>request.GET.get('page')\<close> inside the paginator: the
  parameter is absent (\<^verbatim>\<open>None\<close>, a \<^verbatim>\<open>TypeError\<close>), is not an integer literal
  (a \<^verbatim>\<open>ValueError\<close>), or is an integer.
\<close>

datatype page_arg = NoPage | NotAnInteger | PageNum int

text \<open>
  \<open>user\<close> is \<^verbatim>\<open>request.user\<close>: \<open>None\<close> for an anonymous visitor. \<open>now\<close> is the clock
  reading the store takes for a creation timestamp while the request is handled.
\<close>

record request =
  user :: "User option"
  POST :: qdict
  FILES :: files
  GET_page :: page_arg
  now :: nat

datatype route = Profile string | Post_detail nat | Login

datatype page_exn = PageNotAnInteger | EmptyPage

datatype exn =
    Http404
  | MultipleObjectsReturned
  | IntegrityError
  | ValueError
  | InvalidPage page_exn

record 'a Page =
  object_list :: "'a list"
  number :: int

section \<open>Forms\<close>

type_synonym errors = "(string \<times> string) list"

text \<open>
  The cleaned value of a file field: \<^verbatim>\<open>None\<close> (no file, none stored), \<^verbatim>\<open>False\<close> (the
  clear box was ticked), or a file (the uploaded one, or the stored one when nothing was
  uploaded).
\<close>

datatype image_data = No_file | Clear | File string

text \<open>
  \<^verbatim>\<open>form.cleaned_data\<close> of a post form. A key is absent (\<open>None\<close>) when its field failed
  validation.
\<close>

record cleaned_post =
  cl_text :: "string option"
  cl_group :: "nat option option"
  cl_image :: "image_data option"

text \<open>
  A form validator takes the store, the instance the form was built on, the submitted
  data and files, and yields the field errors together with the cleaned values.
  \<^verbatim>\<open>posts/forms.py\<close> is not among the sources, so the handlers take the two validators as
  parameters.
\<close>

type_synonym post_validator = "db \<Rightarrow> Post \<Rightarrow> qdict \<Rightarrow> files \<Rightarrow> errors \<times> cleaned_post"

type_synonym comment_validator = "db \<Rightarrow> qdict \<Rightarrow> errors \<times> string"

text \<open>
  A form object: whether it is bound (it was given data or files), its errors, its
  cleaned data (absent on an unbound form) and the model instance it will save.
\<close>

record ('c, 'i) form =
  is_bound :: bool
  form_errors :: errors
  cleaned_data :: "'c option"
  form_instance :: 'i

text \<open>\<^verbatim>\<open>x or None\<close> for a dictionary: an empty one is falsy.\<close>

definition or_None :: "'a list \<Rightarrow> 'a list option" where
  "or_None d = (if d = [] then None else Some d)"

definition unwrap :: "'a list option \<Rightarrow> 'a list" where
  "unwrap d = (case d of None \<Rightarrow> [] | Some q \<Rightarrow> q)"

text \<open>\<^verbatim>\<open>x is not None\<close>.\<close>

definition is_not_None :: "'a option \<Rightarrow> bool" where
  "is_not_None x = (case x of None \<Rightarrow> False | Some _ \<Rightarrow> True)"

definition Post_blank :: Post where
  "Post_blank = \<lparr>post_id = None, post_text = [], pub_date = None, author_id = None,
     group_fk = None, post_image = None\<rparr>"

definition Comment_blank :: Comment where
  "Comment_blank = \<lparr>comment_id = None, comment_post = None, comment_author = None,
     comment_text = [], created = None\<rparr>"

text \<open>
  \<^verbatim>\<open>construct_instance\<close>, which the validation of a model form runs: every key of the
  cleaned data is written into the instance. A file field is left alone for \<^verbatim>\<open>None\<close>,
  emptied for \<^verbatim>\<open>False\<close> and set for a file.
\<close>

definition construct_instance :: "cleaned_post \<Rightarrow> Post \<Rightarrow> Post" where
  "construct_instance c p =
     p\<lparr>post_text := (case cl_text c of None \<Rightarrow> post_text p | Some t \<Rightarrow> t),
       group_fk := (case cl_group c of None \<Rightarrow> group_fk p | Some g \<Rightarrow> g),
       post_image := (case cl_image c of
                        None \<Rightarrow> post_image p
                      | Some No_file \<Rightarrow> post_image p
                      | Some Clear \<Rightarrow> None
                      | Some (File f) \<Rightarrow> Some f)\<rparr>"

text \<open>
  \<^verbatim>\<open>PostForm(data, files=files, instance=instance)\<close>, as it is once \<^verbatim>\<open>is_valid()\<close> has
  been asked. The form is bound when data or files were given; only a bound form is
  validated, and its validation writes the cleaned values into the instance.
\<close>

definition PostForm ::
  "post_validator \<Rightarrow> db \<Rightarrow> qdict option \<Rightarrow> files option \<Rightarrow> Post option
     \<Rightarrow> (cleaned_post, Post) form" where
  "PostForm v d data files inst =
     (let p = (case inst of None \<Rightarrow> Post_blank | Some q \<Rightarrow> q);
          bound = (is_not_None data \<or> is_not_None files);
          r = v d p (unwrap data) (unwrap files)
      in \<lparr>is_bound = bound,
          form_errors = (if bound then fst r else []),
          cleaned_data = (if bound then Some (snd r) else None),
          form_instance = (if bound then construct_instance (snd r) p else p)\<rparr>)"

definition CommentForm ::
  "comment_validator \<Rightarrow> db \<Rightarrow> qdict option \<Rightarrow> (string, Comment) form" where
  "CommentForm v d data =
     (let bound = is_not_None data;
          r = v d (unwrap data)
      in \<lparr>is_bound = bound,
          form_errors = (if bound then fst r else []),
          cleaned_data = (if bound then Some (snd r) else None),
          form_instance = Comment_blank\<rparr>)"

definition is_valid :: "('c, 'i) form \<Rightarrow> bool" where
  "is_valid f = (is_bound f \<and> form_errors f = [])"

text \<open>
  \<^verbatim>\<open>form.save(commit=False)\<close>: a form with errors raises \<^verbatim>\<open>ValueError\<close>; otherwise the
  form's instance is returned unsaved. For a comment form the cleaned text is written
  into the instance here.
\<close>

definition PostForm_save_commit_False :: "(cleaned_post, Post) form \<Rightarrow> exn + Post" where
  "PostForm_save_commit_False f =
     (if form_errors f \<noteq> [] then Inl ValueError else Inr (form_instance f))"

definition CommentForm_save_commit_False :: "(string, Comment) form \<Rightarrow> exn + Comment" where
  "CommentForm_save_commit_False f =
     (if form_errors f \<noteq> [] then Inl ValueError
      else case cleaned_data f of
             None \<Rightarrow> Inr (form_instance f)
           | Some t \<Rightarrow> Inr ((form_instance f)\<lparr>comment_text := t\<rparr>))"

section \<open>The store\<close>

text \<open>
  \<^verbatim>\<open>get_object_or_404\<close>: no matching row is \<^verbatim>\<open>Http404\<close>, one is the row, several are
  \<^verbatim>\<open>MultipleObjectsReturned\<close>.
\<close>

definition get_object_or_404 :: "'a list \<Rightarrow> ('a \<Rightarrow> bool) \<Rightarrow> exn + 'a" where
  "get_object_or_404 rows P =
     (case filter P rows of
        [] \<Rightarrow> Inl Http404
      | [x] \<Rightarrow> Inr x
      | _ \<Rightarrow> Inl MultipleObjectsReturned)"

text \<open>
  \<^verbatim>\<open>instance.save()\<close> of a Post. A missing author violates the NOT NULL constraint. An
  instance without a primary key is inserted with the next key and the current time; one
  whose key names a stored row overwrites that row with the instance's fields; one whose
  key names no row is inserted as it is.
\<close>

definition Post_save :: "nat \<Rightarrow> Post \<Rightarrow> db \<Rightarrow> exn + db" where
  "Post_save t p d =
     (case author_id p of
        None \<Rightarrow> Inl IntegrityError
      | Some _ \<Rightarrow>
          (case post_id p of
             None \<Rightarrow>
               Inr (d\<lparr>posts := posts d @ [p\<lparr>post_id := Some (next_post_id d), pub_date := Some t\<rparr>],
                      next_post_id := Suc (next_post_id d)\<rparr>)
           | Some i \<Rightarrow>
               if list_ex (\<lambda>q. post_id q = Some i) (posts d)
               then Inr (d\<lparr>posts := map (\<lambda>q. if post_id q = Some i then p else q) (posts d)\<rparr>)
               else Inr (d\<lparr>posts := posts d @ [p]\<rparr>)))"

definition Comment_save :: "nat \<Rightarrow> Comment \<Rightarrow> db \<Rightarrow> exn + db" where
  "Comment_save t c d =
     (if comment_author c = None \<or> comment_post c = None then Inl IntegrityError
      else case comment_id c of
             None \<Rightarrow>
               Inr (d\<lparr>comments := comments d @
                        [c\<lparr>comment_id := Some (next_comment_id d), created := Some t\<rparr>],
                      next_comment_id := Suc (next_comment_id d)\<rparr>)
           | Some i \<Rightarrow>
               if list_ex (\<lambda>q. comment_id q = Some i) (comments d)
               then Inr (d\<lparr>comments := map (\<lambda>q. if comment_id q = Some i then c else q) (comments d)\<rparr>)
               else Inr (d\<lparr>comments := comments d @ [c]\<rparr>))"

text \<open>
  \<^verbatim>\<open>Follow.objects.get_or_create(user=follower, author=following)\<close>: one matching row is
  returned as it is, none makes the handler's row, several raise.
\<close>

definition Follow_filter :: "nat \<Rightarrow> nat \<Rightarrow> db \<Rightarrow> Follow list" where
  "Follow_filter u a d = filter (\<lambda>f. follow_user f = u \<and> follow_author f = a) (follows d)"

definition Follow_get_or_create :: "nat \<Rightarrow> nat \<Rightarrow> db \<Rightarrow> exn + db" where
  "Follow_get_or_create u a d =
     (case Follow_filter u a d of
        [] \<Rightarrow> Inr (d\<lparr>follows := follows d @
                       [\<lparr>follow_id = next_follow_id d, follow_user = u, follow_author = a\<rparr>],
                     next_follow_id := Suc (next_follow_id d)\<rparr>)
      | [x] \<Rightarrow> Inr d
      | _ \<Rightarrow> Inl MultipleObjectsReturned)"

text \<open>
  Modelled from the spec: the default ordering of \<^verbatim>\<open>Post.objects.all()\<close>. It is
  declared in \<^verbatim>\<open>posts/models.py\<close>, which is not among the sources; the spec gives
  most recent first, and rows are stored oldest first.
\<close>

definition Post_objects_all :: "db \<Rightarrow> Post list" where
  "Post_objects_all d = rev (posts d)"

section \<open>Pagination\<close>

text \<open>
  Django's \<^verbatim>\<open>Paginator(object_list, per_page)\<close> with its defaults (no orphans, an empty
  first page allowed).
\<close>

definition count :: "'a list \<Rightarrow> int" where
  "count xs = int (length xs)"

definition num_pages :: "'a list \<Rightarrow> int \<Rightarrow> int" where
  "num_pages xs per_page =
     (let hits = max 1 (count xs - 0) in (hits + per_page - 1) div per_page)"

definition validate_number :: "'a list \<Rightarrow> int \<Rightarrow> page_arg \<Rightarrow> page_exn + int" where
  "validate_number xs per_page n =
     (case n of
        NoPage \<Rightarrow> Inl PageNotAnInteger
      | NotAnInteger \<Rightarrow> Inl PageNotAnInteger
      | PageNum k \<Rightarrow>
          if k < 1 then Inl EmptyPage
          else if k > num_pages xs per_page then Inl EmptyPage
          else Inr k)"

definition page :: "'a list \<Rightarrow> int \<Rightarrow> int \<Rightarrow> page_exn + 'a Page" where
  "page xs per_page n =
     (case validate_number xs per_page (PageNum n) of
        Inl e \<Rightarrow> Inl e
      | Inr k \<Rightarrow>
          (let bottom = (k - 1) * per_page;
               top = bottom + per_page;
               top = (if top + 0 \<ge> count xs then count xs else top)
           in Inr \<lparr>object_list = take (nat (top - bottom)) (drop (nat bottom) xs), number = k\<rparr>))"

definition get_page :: "'a list \<Rightarrow> int \<Rightarrow> page_arg \<Rightarrow> page_exn + 'a Page" where
  "get_page xs per_page n =
     (case validate_number xs per_page n of
        Inr k \<Rightarrow> page xs per_page k
      | Inl PageNotAnInteger \<Rightarrow> page xs per_page 1
      | Inl EmptyPage \<Rightarrow> page xs per_page (num_pages xs per_page))"

section \<open>Handlers\<close>

datatype template_context =
    Index_ctx "Post Page"
  | Group_ctx Group "Post Page"
  | Profile_ctx nat User "Post list" "Post Page" "Follow list"
  | Follow_ctx "Post Page"
  | Form_ctx "(cleaned_post, Post) form"
  | Edit_ctx bool "(cleaned_post, Post) form"

datatype response = Render string template_context | Redirect route | Raised exn

text \<open>The \<^verbatim>\<open>@login_required\<close> decorator: an anonymous visitor is sent to the login page.\<close>

definition login_required :: "request \<Rightarrow> db \<Rightarrow> (User \<Rightarrow> response \<times> db) \<Rightarrow> response \<times> db" where
  "login_required request d view =
     (case user request of None \<Rightarrow> (Redirect Login, d) | Some u \<Rightarrow> view u)"

subsection \<open>Listings\<close>

definition index :: "request \<Rightarrow> db \<Rightarrow> response" where
  "index request d =
     (let posts_list = Post_objects_all d in
      case get_page posts_list 10 (GET_page request) of
        Inl e \<Rightarrow> Raised (InvalidPage e)
      | Inr page_obj \<Rightarrow> Render ''posts/index.html'' (Index_ctx page_obj))"

text \<open>\<^verbatim>\<open>group.posts.all()\<close>: the posts whose group is the given one.\<close>

definition group_posts_list :: "db \<Rightarrow> Group \<Rightarrow> Post list" where
  "group_posts_list d g = filter (\<lambda>p. group_fk p = Some (group_id g)) (Post_objects_all d)"

definition group_posts :: "request \<Rightarrow> string \<Rightarrow> db \<Rightarrow> response" where
  "group_posts request s d =
     (case get_object_or_404 (groups d) (\<lambda>g. slug g = s) of
        Inl e \<Rightarrow> Raised e
      | Inr g \<Rightarrow>
          (let posts_list = group_posts_list d g in
           case get_page posts_list 10 (GET_page request) of
             Inl e \<Rightarrow> Raised (InvalidPage e)
           | Inr page_obj \<Rightarrow> Render ''posts/group_list.html'' (Group_ctx g page_obj)))"

text \<open>\<^verbatim>\<open>author.posts.select_related('group')\<close>: the posts of the given author.\<close>

definition author_posts :: "db \<Rightarrow> User \<Rightarrow> Post list" where
  "author_posts d a = filter (\<lambda>p. author_id p = Some (user_id a)) (Post_objects_all d)"

definition profile :: "request \<Rightarrow> string \<Rightarrow> db \<Rightarrow> response" where
  "profile request name d =
     (case get_object_or_404 (users d) (\<lambda>w. username w = name) of
        Inl e \<Rightarrow> Raised e
      | Inr a \<Rightarrow>
          (let post_list = author_posts d a;
               cnt = length post_list;
               following = (case user request of
                              None \<Rightarrow> []
                            | Some u \<Rightarrow> Follow_filter (user_id u) (user_id a) d)
           in case get_page post_list 10 (GET_page request) of
                Inl e \<Rightarrow> Raised (InvalidPage e)
              | Inr page_obj \<Rightarrow>
                  Render ''posts/profile.html'' (Profile_ctx cnt a post_list page_obj following)))"

text \<open>
  \<^verbatim>\<open>Post.objects.select_related('author', 'group').filter(author__following__user=request.user)\<close>:
  the join of the posts with the Follow rows of their author, kept where the follower is
  the requester. A post comes once for each matching Follow row.
\<close>

definition feed_posts :: "db \<Rightarrow> User \<Rightarrow> Post list" where
  "feed_posts d u =
     concat (map (\<lambda>p. map (\<lambda>f. p)
                    (filter (\<lambda>f. Some (follow_author f) = author_id p \<and> follow_user f = user_id u)
                       (follows d)))
               (Post_objects_all d))"

definition follow_index :: "request \<Rightarrow> db \<Rightarrow> response" where
  "follow_index request d =
     (case user request of
        None \<Rightarrow> Redirect Login
      | Some u \<Rightarrow>
          (let posts_list = feed_posts d u in
           case get_page posts_list 10 (GET_page request) of
             Inl e \<Rightarrow> Raised (InvalidPage e)
           | Inr page_obj \<Rightarrow> Render ''posts/follow.html'' (Follow_ctx page_obj)))"

subsection \<open>Creating and editing a post\<close>

text \<open>
  \<^verbatim>\<open>post\<close> is the form's own instance, so the second \<^verbatim>\<open>form.save()\<close> stores the object
  the handler has just given an author. When the form is not valid the handler replaces
  it by a fresh \<^verbatim>\<open>PostForm()\<close> and renders that one.
\<close>

definition post_create :: "post_validator \<Rightarrow> request \<Rightarrow> db \<Rightarrow> response \<times> db" where
  "post_create v request d =
     login_required request d (\<lambda>u.
       let form = PostForm v d (or_None (POST request)) (or_None (FILES request)) None in
       if is_valid form then
         (case PostForm_save_commit_False form of
            Inl e \<Rightarrow> (Raised e, d)
          | Inr post \<Rightarrow>
              (let post = post\<lparr>author_id := Some (user_id u)\<rparr> in
               case Post_save (now request) post d of
                 Inl e \<Rightarrow> (Raised e, d)
               | Inr d' \<Rightarrow> (Redirect (Profile (username u)), d')))
       else
         (let form = PostForm v d None None None in
          (Render ''posts/create_post.html'' (Form_ctx form), d)))"

text \<open>\<^verbatim>\<open>object_post.author == request.user\<close> compares the two users' primary keys.\<close>

definition post_edit :: "post_validator \<Rightarrow> request \<Rightarrow> nat \<Rightarrow> db \<Rightarrow> response \<times> db" where
  "post_edit v request pid d =
     login_required request d (\<lambda>u.
       case get_object_or_404 (posts d) (\<lambda>p. post_id p = Some pid) of
         Inl e \<Rightarrow> (Raised e, d)
       | Inr object_post \<Rightarrow>
           if author_id object_post = Some (user_id u) then
             (let form = PostForm v d (or_None (POST request)) (or_None (FILES request))
                           (Some object_post);
                  ctx = Edit_ctx True form
              in if is_valid form then
                   (case PostForm_save_commit_False form of
                      Inl e \<Rightarrow> (Raised e, d)
                    | Inr post \<Rightarrow>
                        (case Post_save (now request) post d of
                           Inl e \<Rightarrow> (Raised e, d)
                         | Inr d' \<Rightarrow> (Redirect (Post_detail pid), d')))
                 else (Render ''posts/create_post.html'' ctx, d))
           else (Redirect (Post_detail pid), d))"

subsection \<open>Comments\<close>

definition add_comment :: "comment_validator \<Rightarrow> request \<Rightarrow> nat \<Rightarrow> db \<Rightarrow> response \<times> db" where
  "add_comment v request pid d =
     login_required request d (\<lambda>u.
       case get_object_or_404 (posts d) (\<lambda>p. post_id p = Some pid) of
         Inl e \<Rightarrow> (Raised e, d)
       | Inr post \<Rightarrow>
           (let form = CommentForm v d (or_None (POST request));
                saved =
                  (if is_valid form then
                     (case CommentForm_save_commit_False form of
                        Inl e \<Rightarrow> Inl e
                      | Inr comment \<Rightarrow>
                          (let comment = comment\<lparr>comment_author := Some (user_id u)\<rparr>;
                               comment = comment\<lparr>comment_post := post_id post\<rparr>
                           in Comment_save (now request) comment d))
                   else Inr d)
            in case saved of
                 Inl e \<Rightarrow> (Raised e, d)
               | Inr d' \<Rightarrow> (Redirect (Post_detail pid), d')))"

subsection \<open>Following\<close>

text \<open>
  \<^verbatim>\<open>follower != following\<close> compares two users by primary key.
  \<^verbatim>\<open>follower != following.follower\<close> compares a user with the reverse manager of the
  target's Follow rows: an instance and a manager are never equal, whatever rows the
  manager holds.
\<close>

definition ne_user :: "User \<Rightarrow> User \<Rightarrow> bool" where
  "ne_user a b = (user_id a \<noteq> user_id b)"

definition ne_manager :: "User \<Rightarrow> Follow list \<Rightarrow> bool" where
  "ne_manager a rows = True"

definition follower_manager :: "db \<Rightarrow> User \<Rightarrow> Follow list" where
  "follower_manager d a = filter (\<lambda>f. follow_user f = user_id a) (follows d)"

definition profile_follow :: "request \<Rightarrow> string \<Rightarrow> db \<Rightarrow> response \<times> db" where
  "profile_follow request name d =
     login_required request d (\<lambda>u.
       case get_object_or_404 (users d) (\<lambda>w. username w = name) of
         Inl e \<Rightarrow> (Raised e, d)
       | Inr following \<Rightarrow>
           (let follower = u;
                created =
                  (if ne_user follower following
                      \<and> ne_manager follower (follower_manager d following)
                   then Follow_get_or_create (user_id follower) (user_id following) d
                   else Inr d)
            in case created of
                 Inl e \<Rightarrow> (Raised e, d)
               | Inr d' \<Rightarrow> (Redirect (Profile name), d')))"

text \<open>
  \<^verbatim>\<open>Follow.objects.filter(user=request.user, author__username=username).delete()\<close>: the
  rows of the requester whose author, looked up among the users, bears the name.
\<close>

definition unfollow_match :: "db \<Rightarrow> User \<Rightarrow> string \<Rightarrow> Follow \<Rightarrow> bool" where
  "unfollow_match d u name f =
     (follow_user f = user_id u
      \<and> list_ex (\<lambda>w. user_id w = follow_author f \<and> username w = name) (users d))"

definition profile_unfollow :: "request \<Rightarrow> string \<Rightarrow> db \<Rightarrow> response \<times> db" where
  "profile_unfollow request name d =
     login_required request d (\<lambda>u.
       (Redirect (Profile name),
        d\<lparr>follows := filter (\<lambda>f. \<not> unfollow_match d u name f) (follows d)\<rparr>))"

section \<open>The form validators and the stores of the test suite\<close>

text \<open>\<^verbatim>\<open>QueryDict.get\<close>: the last value submitted under the key.\<close>

definition QueryDict_get :: "('k \<times> 'v) list \<Rightarrow> 'k \<Rightarrow> 'v option" where
  "QueryDict_get d k = map_of (rev d) k"

text \<open>
  \<^verbatim>\<open>str.strip()\<close>. A character is a code point below 256; those that count as white
  space are the tab to carriage return, the four separators, the space, the next-line
  character and the no-break space.
\<close>

definition isspace :: "char \<Rightarrow> bool" where
  "isspace c = ((of_char c :: nat) \<in> {9, 10, 11, 12, 13, 28, 29, 30, 31, 32, 133, 160})"

definition strip :: "string \<Rightarrow> string" where
  "strip s = rev (dropWhile isspace (rev (dropWhile isspace s)))"

text \<open>
  \<^verbatim>\<open>int(s)\<close> of a string: white space around it is dropped, one sign may lead, and the
  rest is decimal digits, where single underscores may stand between digits. \<open>None\<close> is
  the \<^verbatim>\<open>ValueError\<close>.
\<close>

fun split_on :: "'a \<Rightarrow> 'a list \<Rightarrow> 'a list list" where
  "split_on x [] = [[]]"
| "split_on x (y # ys) =
     (if y = x then [] # split_on x ys
      else case split_on x ys of [] \<Rightarrow> [[y]] | p # ps \<Rightarrow> (y # p) # ps)"

definition isdigit :: "char \<Rightarrow> bool" where
  "isdigit c = (48 \<le> (of_char c :: nat) \<and> (of_char c :: nat) \<le> 57)"

definition digits_value :: "string \<Rightarrow> int" where
  "digits_value s = foldl (\<lambda>a c. 10 * a + (int (of_char c) - 48)) 0 s"

definition int_of_string :: "string \<Rightarrow> int option" where
  "int_of_string s =
     (let t = strip s;
          sgn = (case t of [] \<Rightarrow> 1 | c # r \<Rightarrow> if c = CHR ''-'' then - 1 else (1 :: int));
          body = (case t of [] \<Rightarrow> [] | c # r \<Rightarrow> if c = CHR ''-'' \<or> c = CHR ''+'' then r else t);
          parts = split_on CHR ''_'' body
      in if list_all (\<lambda>p. p \<noteq> [] \<and> list_all isdigit p) parts
         then Some (sgn * digits_value (concat parts))
         else None)"

text \<open>
  Modelled from the spec: \<^verbatim>\<open>PostForm\<close> of \<^verbatim>\<open>posts/forms.py\<close>, which is not among the
  sources: a model form (the handlers call \<^verbatim>\<open>save(commit=False)\<close>) with a required
  text, an optional group and an optional image, whose text is a \<^verbatim>\<open>CharField\<close> and whose
  group is a \<^verbatim>\<open>ModelChoiceField\<close> (as \<^verbatim>\<open>test_post_create_and_edit_show_correct_context\<close>
  asserts), each field with the framework's defaults.

  The text as the form reads it: the last submitted value, stripped.
\<close>

definition submitted_text :: "qdict \<Rightarrow> string" where
  "submitted_text data =
     (case QueryDict_get data ''text'' of None \<Rightarrow> [] | Some s \<Rightarrow> strip s)"

definition clean_text :: "qdict \<Rightarrow> errors \<times> string option" where
  "clean_text data =
     (let v = submitted_text data in
      if v = [] then ([(''text'', ''This field is required.'')], None)
      else if list_ex (\<lambda>c. (of_char c :: nat) = 0) v
      then ([(''text'', ''Null characters are not allowed.'')], None)
      else ([], Some v))"

text \<open>
  The group as the form reads it: none when the key is absent or empty, else the primary
  key the value denotes, which has to be the key of a stored group.
\<close>

definition submitted_group :: "qdict \<Rightarrow> int option option" where
  "submitted_group data =
     (case QueryDict_get data ''group'' of
        None \<Rightarrow> Some None
      | Some s \<Rightarrow> if s = [] then Some None
                  else (case int_of_string s of None \<Rightarrow> None | Some i \<Rightarrow> Some (Some i)))"

definition clean_group :: "db \<Rightarrow> qdict \<Rightarrow> errors \<times> nat option option" where
  "clean_group d data =
     (case submitted_group data of
        Some None \<Rightarrow> ([], Some None)
      | Some (Some i) \<Rightarrow>
          if list_ex (\<lambda>g. int (group_id g) = i) (groups d) then ([], Some (Some (nat i)))
          else ([(''group'', ''Select a valid choice.'')], None)
      | None \<Rightarrow> ([(''group'', ''Select a valid choice.'')], None))"

text \<open>
  The clear box of the file input, read as a check box is: absent is off, the words
  \<^verbatim>\<open>true\<close> and \<^verbatim>\<open>false\<close> in any case are on and off, any other value is on unless empty.
\<close>

definition lower :: "char \<Rightarrow> char" where
  "lower c = (if 65 \<le> (of_char c :: nat) \<and> (of_char c :: nat) \<le> 90
              then char_of ((of_char c :: nat) + 32) else c)"

definition checkbox_value :: "qdict \<Rightarrow> string \<Rightarrow> bool" where
  "checkbox_value data k =
     (case QueryDict_get data k of
        None \<Rightarrow> False
      | Some s \<Rightarrow> if map lower s = ''true'' then True
                  else if map lower s = ''false'' then False
                  else s \<noteq> [])"

text \<open>
  The image field: a ticked clear box together with an upload is a contradiction, alone
  it cleans to \<^verbatim>\<open>False\<close>; without an upload the field cleans to the stored image (or to
  \<^verbatim>\<open>None\<close> when there is none); an upload has to pass the checks on the file.
\<close>

definition clean_image :: "Post \<Rightarrow> qdict \<Rightarrow> files \<Rightarrow> errors \<times> image_data option" where
  "clean_image inst data fs =
     (let up = QueryDict_get fs ''image'' in
      if checkbox_value data ''image-clear'' then
        (case up of
           Some u \<Rightarrow> ([(''image'', ''Please either submit a file or check the clear checkbox, not both.'')],
                      None)
         | None \<Rightarrow> ([], Some Clear))
      else
        (case up of
           None \<Rightarrow> (case post_image inst of
                      None \<Rightarrow> ([], Some No_file)
                    | Some f \<Rightarrow> ([], Some (File f)))
         | Some u \<Rightarrow>
             if upload_ok u then ([], Some (File (upload_name u)))
             else ([(''image'', ''Upload a valid image.'')], None)))"

definition PostForm_fields :: post_validator where
  "PostForm_fields d inst data fs =
     (let t = clean_text data;
          g = clean_group d data;
          i = clean_image inst data fs
      in (fst t @ fst g @ fst i, \<lparr>cl_text = snd t, cl_group = snd g, cl_image = snd i\<rparr>))"

text \<open>
  Modelled from the spec: \<^verbatim>\<open>CommentForm\<close> of \<^verbatim>\<open>posts/forms.py\<close>, which is not among
  the sources. Its one field, the text, is required and read as the text of a post is.
\<close>

definition CommentForm_fields :: comment_validator where
  "CommentForm_fields d data =
     (let t = clean_text data in (fst t, submitted_text data))"

text \<open>
  The fixture of \<^verbatim>\<open>PostViewTest\<close>: the users \<^verbatim>\<open>author\<close> and \<^verbatim>\<open>test_user\<close>, one group
  and one post of \<^verbatim>\<open>test_user\<close> in it.
\<close>

definition author :: User where
  "author = \<lparr>user_id = 1, username = ''author''\<rparr>"

definition test_user :: User where
  "test_user = \<lparr>user_id = 2, username = ''test_user''\<rparr>"

definition test_group :: Group where
  "test_group = \<lparr>group_id = 1, title = ''Test group'', slug = ''test-slug'',
     description = ''Test description''\<rparr>"

definition test_post :: Post where
  "test_post = \<lparr>post_id = Some 1, post_text = ''Test post text.'', pub_date = Some 100,
     author_id = Some 2, group_fk = Some 1, post_image = None\<rparr>"

definition view_db :: db where
  "view_db = \<lparr>users = [author, test_user], groups = [test_group], posts = [test_post],
     comments = [], follows = [], next_post_id = 2, next_comment_id = 1, next_follow_id = 1\<rparr>"

text \<open>A request of the logged-in \<^verbatim>\<open>test_user\<close> with the given form data.\<close>

definition client_request :: "qdict \<Rightarrow> files \<Rightarrow> page_arg \<Rightarrow> request" where
  "client_request data files pg =
     \<lparr>user = Some test_user, POST = data, FILES = files, GET_page = pg, now = 200\<rparr>"

text \<open>
  The fixture of \<^verbatim>\<open>PaginatorTest\<close>: thirteen posts of one author in one group; a second
  user follows that author.
\<close>

definition paginator_post :: "nat \<Rightarrow> Post" where
  "paginator_post i = \<lparr>post_id = Some (Suc i), post_text = ''Test-text'', pub_date = Some i,
     author_id = Some 1, group_fk = Some 1, post_image = None\<rparr>"

definition paginator_db :: db where
  "paginator_db = \<lparr>users = [author, test_user], groups = [test_group],
     posts = map paginator_post [0, 1, 2, 3, 4, 5, 6, 7, 8, 9, 10, 11, 12],
     comments = [],
     follows = [\<lparr>follow_id = 1, follow_user = 2, follow_author = 1\<rparr>],
     next_post_id = 14, next_comment_id = 1, next_follow_id = 2\<rparr>"

text \<open>
  Further stores: the post of \<^verbatim>\<open>test_user\<close> with a stored image, and the Follow table
  with two rows of one pair.
\<close>

definition image_post :: Post where
  "image_post = \<lparr>post_id = Some 1, post_text = ''Test post text.'', pub_date = Some 100,
     author_id = Some 2, group_fk = Some 1, post_image = Some ''posts/small.gif''\<rparr>"

definition image_db :: db where
  "image_db = \<lparr>users = [author, test_user], groups = [test_group], posts = [image_post],
     comments = [], follows = [], next_post_id = 2, next_comment_id = 1, next_follow_id = 1\<rparr>"

definition duplicate_db :: db where
  "duplicate_db = \<lparr>users = [author, test_user], groups = [test_group], posts = [test_post],
     comments = [],
     follows = [\<lparr>follow_id = 1, follow_user = 2, follow_author = 1\<rparr>,
                \<lparr>follow_id = 2, follow_user = 2, follow_author = 1\<rparr>],
     next_post_id = 2, next_comment_id = 1, next_follow_id = 3\<rparr>"

section \<open>Reading a request and a response\<close>

text \<open>
  The page number a request asks for: the paginator takes the first page when the
  parameter is absent or is not an integer.
\<close>

definition page_requested :: "request \<Rightarrow> int" where
  "page_requested request = (case GET_page request of PageNum k \<Rightarrow> k | _ \<Rightarrow> 1)"

text \<open>\<^verbatim>\<open>response.context['page_obj']\<close> and its length, as the tests read them.\<close>

fun page_obj :: "response \<Rightarrow> Post Page option" where
  "page_obj (Render t (Index_ctx pg)) = Some pg"
| "page_obj (Render t (Group_ctx g pg)) = Some pg"
| "page_obj (Render t (Profile_ctx n a ps pg fs)) = Some pg"
| "page_obj (Render t (Follow_ctx pg)) = Some pg"
| "page_obj r = None"

definition page_obj_len :: "response \<Rightarrow> int option" where
  "page_obj_len r = map_option (\<lambda>pg. count (object_list pg)) (page_obj r)"

section \<open>Lemmas about the store, the forms and the paginator\<close>

lemma get_object_or_404_Inr: "get_object_or_404 rows P = Inr x \<longleftrightarrow> filter P rows = [x]"
  by (auto simp: get_object_or_404_def split: list.splits)

lemma get_object_or_404_404: "get_object_or_404 rows P = Inl Http404 \<longleftrightarrow> filter P rows = []"
  by (auto simp: get_object_or_404_def split: list.splits)

lemma or_None_empty: "or_None [] = None"
  by (simp add: or_None_def)

lemma unbound_PostForm:
  "PostForm v d None None inst =
     \<lparr>is_bound = False, form_errors = [], cleaned_data = None,
      form_instance = (case inst of None \<Rightarrow> Post_blank | Some q \<Rightarrow> q)\<rparr>"
  by (simp add: PostForm_def is_not_None_def)

lemma unbound_PostForm_invalid: "\<not> is_valid (PostForm v d None None inst)"
  by (simp add: unbound_PostForm is_valid_def)

lemma unwrap_or_None: "unwrap (or_None x) = x"
  by (simp add: unwrap_def or_None_def)

lemma valid_PostForm_save:
  assumes "is_valid (PostForm v d data files inst)"
  shows "\<exists>c. cleaned_data (PostForm v d data files inst) = Some c
           \<and> c = snd (v d (case inst of None \<Rightarrow> Post_blank | Some q \<Rightarrow> q)
                         (unwrap data) (unwrap files))
           \<and> fst (v d (case inst of None \<Rightarrow> Post_blank | Some q \<Rightarrow> q)
                     (unwrap data) (unwrap files)) = []
           \<and> PostForm_save_commit_False (PostForm v d data files inst) =
               Inr (construct_instance c (case inst of None \<Rightarrow> Post_blank | Some q \<Rightarrow> q))"
  using assms
  by (auto simp add: is_valid_def PostForm_def PostForm_save_commit_False_def Let_def
      split: if_splits)

lemma valid_CommentForm_save:
  assumes "is_valid (CommentForm v d data)"
  shows "\<exists>t. cleaned_data (CommentForm v d data) = Some t
           \<and> CommentForm_save_commit_False (CommentForm v d data) =
               Inr (Comment_blank\<lparr>comment_text := t\<rparr>)"
  using assms
  by (auto simp add: is_valid_def CommentForm_def CommentForm_save_commit_False_def Let_def
      split: if_splits)

lemma get_object_or_404_holds: "get_object_or_404 rows P = Inr x \<Longrightarrow> P x \<and> x \<in> set rows"
proof -
  assume "get_object_or_404 rows P = Inr x"
  then have "filter P rows = [x]" by (simp add: get_object_or_404_Inr)
  then have "x \<in> set (filter P rows)" by simp
  then show ?thesis by simp
qed

lemma map_replace_filter:
  assumes "filter P xs = [x]"
  shows "filter P (map (\<lambda>q. if P q then y else q) xs) = (if P y then [y] else [])"
  using assms
proof (induction xs)
  case Nil
  then show ?case by simp
next
  case (Cons a xs)
  show ?case
  proof (cases "P a")
    case True
    with Cons.prems have e: "filter P xs = []" by simp
    then have "\<forall>q\<in>set xs. \<not> P q" by (simp add: filter_empty_conv)
    then have "map (\<lambda>q. if P q then y else q) xs = xs" by (simp add: map_idI)
    with True e show ?thesis by simp
  next
    case False
    with Cons show ?thesis by simp
  qed
qed

lemma get_page_length:
  assumes "(case a of PageNum k \<Rightarrow> k | _ \<Rightarrow> 1) = p"
    and "1 \<le> p" and "0 < min 10 (count xs - 10 * (p - 1))"
  shows "\<exists>pg. get_page xs 10 a = Inr pg
           \<and> count (object_list pg) = min 10 (count xs - 10 * (p - 1))"
proof -
  have np: "p \<le> num_pages xs 10"
    using assms(2,3) by (simp add: num_pages_def count_def Let_def)
  have v: "validate_number xs 10 (PageNum p) = Inr p"
    using assms(2) np by (simp add: validate_number_def)
  have g: "get_page xs 10 a = page xs 10 p"
  proof (cases a)
    case (PageNum k)
    with assms(1) v show ?thesis by (simp add: get_page_def)
  next
    case NoPage
    with assms(1) show ?thesis by (auto simp add: get_page_def validate_number_def)
  next
    case NotAnInteger
    with assms(1) show ?thesis by (auto simp add: get_page_def validate_number_def)
  qed
  show ?thesis
    using assms(2,3) by (auto simp add: g page_def v Let_def count_def)
qed

text \<open>What a valid post form of \<open>PostForm_fields\<close> has cleaned, field by field.\<close>

lemma clean_text_ok:
  "fst (clean_text data) = [] \<Longrightarrow> snd (clean_text data) = Some (submitted_text data)"
  by (simp add: clean_text_def Let_def split: if_splits)

lemma clean_group_ok:
  "fst (clean_group d data) = [] \<Longrightarrow>
     \<exists>g. snd (clean_group d data) = Some g \<and> submitted_group data = Some (map_option int g)"
  by (auto simp add: clean_group_def list_ex_iff split: option.splits if_splits)

lemma clean_image_ok:
  "fst (clean_image inst data fs) = [] \<Longrightarrow>
     \<exists>i. snd (clean_image inst data fs) = Some i
       \<and> (case i of No_file \<Rightarrow> post_image inst | Clear \<Rightarrow> None | File f \<Rightarrow> Some f) =
           (if checkbox_value data ''image-clear'' then None
            else case QueryDict_get fs ''image'' of
                   None \<Rightarrow> post_image inst
                 | Some u \<Rightarrow> Some (upload_name u))"
  by (auto simp add: clean_image_def Let_def split: option.splits if_splits)

text \<open>
  An edit by the author with a valid form of \<open>PostForm_fields\<close>: the response, the
  store and the row of the key afterwards.
\<close>

lemma post_edit_valid:
  assumes "user request = Some u"
    and "get_object_or_404 (posts d) (\<lambda>q. post_id q = Some pid) = Inr p"
    and "author_id p = Some (user_id u)"
    and "is_valid (PostForm PostForm_fields d (or_None (POST request))
                     (or_None (FILES request)) (Some p))"
  shows "\<exists>p'. post_edit PostForm_fields request pid d =
                 (Redirect (Post_detail pid),
                  d\<lparr>posts := map (\<lambda>q. if post_id q = Some pid then p' else q) (posts d)\<rparr>)
           \<and> get_object_or_404 (posts (snd (post_edit PostForm_fields request pid d)))
                (\<lambda>q. post_id q = Some pid) = Inr p'
           \<and> post_text p' = submitted_text (POST request)
           \<and> submitted_group (POST request) = Some (map_option int (group_fk p'))
           \<and> post_image p' =
               (if checkbox_value (POST request) ''image-clear'' then None
                else case QueryDict_get (FILES request) ''image'' of
                       None \<Rightarrow> post_image p
                     | Some f \<Rightarrow> Some (upload_name f))
           \<and> author_id p' = author_id p \<and> post_id p' = post_id p \<and> pub_date p' = pub_date p"
proof -
  let ?form = "PostForm PostForm_fields d (or_None (POST request)) (or_None (FILES request))
                 (Some p)"
  from valid_PostForm_save [OF assms(4)] obtain c where
    c: "c = snd (PostForm_fields d p (POST request) (FILES request))"
    and e: "fst (PostForm_fields d p (POST request) (FILES request)) = []"
    and s: "PostForm_save_commit_False ?form = Inr (construct_instance c p)"
    by (auto simp add: unwrap_or_None)
  from e have et: "fst (clean_text (POST request)) = []"
    and eg: "fst (clean_group d (POST request)) = []"
    and ei: "fst (clean_image p (POST request) (FILES request)) = []"
    by (simp_all add: PostForm_fields_def Let_def)
  from clean_group_ok [OF eg] obtain g where
    g: "snd (clean_group d (POST request)) = Some g"
      "submitted_group (POST request) = Some (map_option int g)" by blast
  from clean_image_ok [OF ei] obtain i where
    i: "snd (clean_image p (POST request) (FILES request)) = Some i"
      "(case i of No_file \<Rightarrow> post_image p | Clear \<Rightarrow> None | File f \<Rightarrow> Some f) =
         (if checkbox_value (POST request) ''image-clear'' then None
          else case QueryDict_get (FILES request) ''image'' of
                 None \<Rightarrow> post_image p
               | Some f \<Rightarrow> Some (upload_name f))" by blast
  have cc: "c = \<lparr>cl_text = Some (submitted_text (POST request)), cl_group = Some g,
                 cl_image = Some i\<rparr>"
    using c clean_text_ok [OF et] g(1) i(1) by (simp add: PostForm_fields_def Let_def)
  let ?p' = "construct_instance c p"
  have f: "filter (\<lambda>q. post_id q = Some pid) (posts d) = [p]"
    using assms(2) by (simp add: get_object_or_404_Inr)
  have pid: "post_id p = Some pid" and mem: "p \<in> set (posts d)"
    using get_object_or_404_holds [OF assms(2)] by simp_all
  have ex: "list_ex (\<lambda>q. post_id q = Some pid) (posts d)"
    using pid mem by (auto simp add: list_ex_iff)
  have keep: "author_id ?p' = author_id p" "post_id ?p' = post_id p" "pub_date ?p' = pub_date p"
    by (simp_all add: construct_instance_def)
  have r: "post_edit PostForm_fields request pid d =
             (Redirect (Post_detail pid),
              d\<lparr>posts := map (\<lambda>q. if post_id q = Some pid then ?p' else q) (posts d)\<rparr>)"
    using assms s pid ex keep
    by (simp add: post_edit_def login_required_def Post_save_def)
  have l: "get_object_or_404 (posts (snd (post_edit PostForm_fields request pid d)))
             (\<lambda>q. post_id q = Some pid) = Inr ?p'"
    using map_replace_filter [OF f, of ?p'] pid keep
    by (simp add: r get_object_or_404_Inr)
  have v: "post_text ?p' = submitted_text (POST request)"
    "submitted_group (POST request) = Some (map_option int (group_fk ?p'))"
    "post_image ?p' =
       (if checkbox_value (POST request) ''image-clear'' then None
        else case QueryDict_get (FILES request) ''image'' of
               None \<Rightarrow> post_image p
             | Some f \<Rightarrow> Some (upload_name f))"
    using g(2) i(2) by (simp_all add: cc construct_instance_def split: image_data.splits)
  show ?thesis
    using r l v keep by blast
qed

lemma profile_follow_step:
  assumes "user request = Some u"
    and "get_object_or_404 (users d) (\<lambda>w. username w = name) = Inr t"
  shows "profile_follow request name d =
           (if user_id u = user_id t then (Redirect (Profile name), d)
            else case Follow_filter (user_id u) (user_id t) d of
                   [] \<Rightarrow> (Redirect (Profile name),
                          d\<lparr>follows := follows d @
                               [\<lparr>follow_id = next_follow_id d, follow_user = user_id u,
                                 follow_author = user_id t\<rparr>],
                            next_follow_id := Suc (next_follow_id d)\<rparr>)
                 | [x] \<Rightarrow> (Redirect (Profile name), d)
                 | _ \<Rightarrow> (Raised MultipleObjectsReturned, d))"
  using assms
  by (simp add: profile_follow_def login_required_def ne_user_def ne_manager_def
      Follow_get_or_create_def Let_def split: list.splits)

lemma profile_follow_users:
  assumes "user request = Some u"
    and "get_object_or_404 (users d) (\<lambda>w. username w = name) = Inr t"
  shows "users (snd (profile_follow request name d)) = users d"
  by (simp add: profile_follow_step [OF assms] split: list.splits)

lemma profile_follow_count:
  assumes "user request = Some u"
    and "get_object_or_404 (users d) (\<lambda>w. username w = name) = Inr t"
  shows "length (Follow_filter (user_id u) (user_id t) (snd (profile_follow request name d))) =
           (if user_id u \<noteq> user_id t \<and> Follow_filter (user_id u) (user_id t) d = [] then 1
            else length (Follow_filter (user_id u) (user_id t) d))"
  by (auto simp add: profile_follow_step [OF assms] Follow_filter_def split: list.splits)

lemma profile_follow_repeat_users:
  assumes "user request = Some u"
    and "get_object_or_404 (users d) (\<lambda>w. username w = name) = Inr t"
  shows "users (((\<lambda>x. snd (profile_follow request name x)) ^^ k) d) = users d"
proof (induction k)
  case 0
  then show ?case by simp
next
  case (Suc k)
  let ?dk = "((\<lambda>x. snd (profile_follow request name x)) ^^ k) d"
  have "get_object_or_404 (users ?dk) (\<lambda>w. username w = name) = Inr t"
    using Suc assms(2) by simp
  from profile_follow_users [OF assms(1) this] Suc show ?case by simp
qed

lemma profile_follow_repeat_count:
  assumes "user request = Some u"
    and "get_object_or_404 (users d) (\<lambda>w. username w = name) = Inr t"
  shows "length (Follow_filter (user_id u) (user_id t)
                  (((\<lambda>x. snd (profile_follow request name x)) ^^ k) d)) =
           (if user_id u \<noteq> user_id t \<and> 0 < k \<and> Follow_filter (user_id u) (user_id t) d = []
            then 1 else length (Follow_filter (user_id u) (user_id t) d))"
proof (induction k)
  case 0
  then show ?case by simp
next
  case (Suc k)
  let ?dk = "((\<lambda>x. snd (profile_follow request name x)) ^^ k) d"
  have g: "get_object_or_404 (users ?dk) (\<lambda>w. username w = name) = Inr t"
    using profile_follow_repeat_users [OF assms, of k] assms(2) by simp
  show ?case
    using profile_follow_count [OF assms(1) g] Suc
    by (auto split: if_splits)
qed

text \<open>
  Whatever the validator, a creation form that is not valid leaves the store as it was
  and answers with the creation page, holding a fresh unbound form.
\<close>

lemma post_create_invalid:
  assumes "user request = Some u"
    and "\<not> is_valid (PostForm v d (or_None (POST request)) (or_None (FILES request)) None)"
  shows "post_create v request d =
           (Render ''posts/create_post.html'' (Form_ctx (PostForm v d None None None)), d)"
  using assms by (simp add: post_create_def login_required_def)

section \<open>Facts about the fixtures\<close>

lemma client_user: "user (client_request data files pg) = Some test_user"
  by (simp add: client_request_def)

lemma view_post_1:
  "get_object_or_404 (posts view_db) (\<lambda>q. post_id q = Some 1) = Inr test_post"
  by (simp add: get_object_or_404_def view_db_def test_post_def)

lemma view_user_author:
  "get_object_or_404 (users view_db) (\<lambda>w. username w = ''author'') = Inr author"
  by (simp add: get_object_or_404_def view_db_def author_def test_user_def)

lemma int_of_string_1: "int_of_string ''1'' = Some 1"
  by (simp add: int_of_string_def strip_def isspace_def isdigit_def digits_value_def)

lemma submitted_edit:
  "submitted_text [(''text'', ''Edited text.''), (''group'', ''1'')] = ''Edited text.''"
  "submitted_group [(''text'', ''Edited text.''), (''group'', ''1'')] = Some (Some 1)"
  "checkbox_value [(''text'', ''Edited text.''), (''group'', ''1'')] ''image-clear'' = False"
  by (simp_all add: submitted_text_def submitted_group_def checkbox_value_def QueryDict_get_def
      strip_def isspace_def int_of_string_1)

lemma valid_submission:
  "is_valid (PostForm PostForm_fields view_db
      (or_None (POST (client_request [(''text'', ''Edited text.''), (''group'', ''1'')] [] NoPage)))
      (or_None (FILES (client_request [(''text'', ''Edited text.''), (''group'', ''1'')] [] NoPage)))
      inst)"
  by (simp add: is_valid_def PostForm_def PostForm_fields_def client_request_def or_None_def
      is_not_None_def unwrap_def clean_text_def clean_group_def clean_image_def submitted_edit
      QueryDict_get_def view_db_def test_group_def Let_def split: option.splits)

lemma submitted_padded:
  "submitted_text [(''text'', '' Edited text. ''), (''group'', ''1'')] = ''Edited text.''"
  "submitted_group [(''text'', '' Edited text. ''), (''group'', ''1'')] = Some (Some 1)"
  "checkbox_value [(''text'', '' Edited text. ''), (''group'', ''1'')] ''image-clear'' = False"
  by (simp_all add: submitted_text_def submitted_group_def checkbox_value_def QueryDict_get_def
      strip_def isspace_def int_of_string_1)

lemma image_post_1:
  "get_object_or_404 (posts image_db) (\<lambda>q. post_id q = Some 1) = Inr image_post"
  by (simp add: get_object_or_404_def image_db_def image_post_def)

lemma valid_padded:
  "is_valid (PostForm PostForm_fields image_db
      (or_None (POST (client_request [(''text'', '' Edited text. ''), (''group'', ''1'')] [] NoPage)))
      (or_None (FILES (client_request [(''text'', '' Edited text. ''), (''group'', ''1'')] [] NoPage)))
      (Some image_post))"
  by (simp add: is_valid_def PostForm_def PostForm_fields_def client_request_def or_None_def
      is_not_None_def unwrap_def clean_text_def clean_group_def clean_image_def submitted_padded
      QueryDict_get_def image_db_def image_post_def test_group_def Let_def split: option.splits)

lemma valid_upload:
  "is_valid (PostForm PostForm_fields image_db
      (or_None (POST (client_request [(''text'', ''Edited text.''), (''group'', ''1'')]
         [(''image'', \<lparr>upload_name = ''new.gif'', upload_ok = True\<rparr>)] NoPage)))
      (or_None (FILES (client_request [(''text'', ''Edited text.''), (''group'', ''1'')]
         [(''image'', \<lparr>upload_name = ''new.gif'', upload_ok = True\<rparr>)] NoPage)))
      (Some image_post))"
  by (simp add: is_valid_def PostForm_def PostForm_fields_def client_request_def or_None_def
      is_not_None_def unwrap_def clean_text_def clean_group_def clean_image_def submitted_edit
      QueryDict_get_def image_db_def image_post_def test_group_def Let_def split: option.splits)

lemma view_user_self:
  "get_object_or_404 (users view_db) (\<lambda>w. username w = ''test_user'') = Inr test_user"
  by (simp add: get_object_or_404_def view_db_def author_def test_user_def)

lemma view_no_follows: "Follow_filter a b view_db = []"
  by (simp add: Follow_filter_def view_db_def)

lemma paginator_all: "count (Post_objects_all paginator_db) = 13"
  by (simp add: count_def Post_objects_all_def paginator_db_def)

lemma paginator_group:
  "get_object_or_404 (groups paginator_db) (\<lambda>g. slug g = ''test-slug'') = Inr test_group"
  by (simp add: get_object_or_404_def paginator_db_def test_group_def)

lemma paginator_group_count: "count (group_posts_list paginator_db test_group) = 13"
  by (simp add: count_def group_posts_list_def Post_objects_all_def paginator_db_def
      paginator_post_def test_group_def)

lemma paginator_author:
  "get_object_or_404 (users paginator_db) (\<lambda>w. username w = ''author'') = Inr author"
  by (simp add: get_object_or_404_def paginator_db_def author_def test_user_def)

lemma paginator_author_count: "count (author_posts paginator_db author) = 13"
  by (simp add: count_def author_posts_def Post_objects_all_def paginator_db_def
      paginator_post_def author_def)

lemma paginator_feed_count: "count (feed_posts paginator_db test_user) = 13"
  by (simp add: count_def feed_posts_def Post_objects_all_def paginator_db_def
      paginator_post_def test_user_def)

section \<open>The claims\<close>

subsection \<open>Creating a post\<close>

text \<open>
  Claim C1. An authenticated user who submits the creation form with data that fails
  validation gets the creation form back with the field errors of the submitted data,
  no redirect, and no new Post. The handler keeps the last two promises
  (\<open>post_create_invalid\<close>) but not the first: it throws the validated form away and
  renders a fresh \<^verbatim>\<open>PostForm()\<close>. At the store of the view tests, the logged-in user
  posting an empty text gets a page whose form is unbound and carries no error, although
  the form bound to the submission has the error of the text field. The edit handler
  renders the bound form in the same situation.
\<close>

theorem post_create_blank_form_on_invalid:
  "post_create PostForm_fields (client_request [(''text'', [])] [] NoPage) view_db =
     (Render ''posts/create_post.html''
        (Form_ctx \<lparr>is_bound = False, form_errors = [], cleaned_data = None,
                   form_instance = Post_blank\<rparr>),
      view_db)
   \<and> form_errors (PostForm PostForm_fields view_db (or_None [(''text'', [])]) (or_None []) None) =
       [(''text'', ''This field is required.'')]
   \<and> post_edit PostForm_fields (client_request [(''text'', [])] [] NoPage) 1 view_db =
       (Render ''posts/create_post.html''
          (Edit_ctx True
             \<lparr>is_bound = True, form_errors = [(''text'', ''This field is required.'')],
              cleaned_data = Some \<lparr>cl_text = None, cl_group = Some None,
                                    cl_image = Some No_file\<rparr>,
              form_instance = \<lparr>post_id = Some 1, post_text = ''Test post text.'',
                                pub_date = Some 100, author_id = Some 2, group_fk = None,
                                post_image = None\<rparr>\<rparr>),
        view_db)"
proof -
  have a: "author_id test_post = Some (user_id test_user)"
    by (simp add: test_post_def test_user_def)
  have u: "user (client_request [(''text'', [])] [] NoPage) = Some test_user"
    by (simp add: client_request_def)
  have v: "PostForm_fields view_db inst [(''text'', [])] [] =
             ([(''text'', ''This field is required.'')],
              \<lparr>cl_text = None, cl_group = Some None,
               cl_image = Some (case post_image inst of None \<Rightarrow> No_file | Some f \<Rightarrow> File f)\<rparr>)"
    for inst
    by (simp add: PostForm_fields_def clean_text_def clean_group_def clean_image_def
        submitted_text_def submitted_group_def checkbox_value_def QueryDict_get_def strip_def
        Let_def split: option.splits)
  have f: "PostForm PostForm_fields view_db (or_None [(''text'', [])]) (or_None []) inst =
             \<lparr>is_bound = True, form_errors = [(''text'', ''This field is required.'')],
              cleaned_data =
                Some \<lparr>cl_text = None, cl_group = Some None,
                      cl_image = Some (case post_image (case inst of None \<Rightarrow> Post_blank | Some q \<Rightarrow> q)
                                       of None \<Rightarrow> No_file | Some f \<Rightarrow> File f)\<rparr>,
              form_instance = (case inst of None \<Rightarrow> Post_blank | Some q \<Rightarrow> q)\<lparr>group_fk := None\<rparr>\<rparr>"
    for inst
    by (simp add: PostForm_def v or_None_def is_not_None_def unwrap_def construct_instance_def
        Let_def split: option.splits)
  have d: "POST (client_request [(''text'', [])] [] NoPage) = [(''text'', [])]"
    "FILES (client_request [(''text'', [])] [] NoPage) = []"
    by (simp_all add: client_request_def)
  have c: "post_create PostForm_fields (client_request [(''text'', [])] [] NoPage) view_db =
             (Render ''posts/create_post.html''
                (Form_ctx \<lparr>is_bound = False, form_errors = [], cleaned_data = None,
                           form_instance = Post_blank\<rparr>), view_db)"
    by (simp add: post_create_def login_required_def u d f is_valid_def unbound_PostForm)
  have e: "post_edit PostForm_fields (client_request [(''text'', [])] [] NoPage) 1 view_db =
       (Render ''posts/create_post.html''
          (Edit_ctx True
             \<lparr>is_bound = True, form_errors = [(''text'', ''This field is required.'')],
              cleaned_data = Some \<lparr>cl_text = None, cl_group = Some None,
                                    cl_image = Some No_file\<rparr>,
              form_instance = \<lparr>post_id = Some 1, post_text = ''Test post text.'',
                                pub_date = Some 100, author_id = Some 2, group_fk = None,
                                post_image = None\<rparr>\<rparr>),
        view_db)"
    using a
    by (simp add: post_edit_def login_required_def u d f view_post_1 is_valid_def test_post_def
        del: One_nat_def)
  from c f [of None] e show ?thesis by simp
qed

text \<open>
  Claim C6. An authenticated user who submits the creation form with valid data: exactly
  one Post is added, its author is the requesting user and its text, group and image are
  those the form's validation wrote from its cleaned values; the number of posts grows
  by one; the response redirects to that user's profile.
\<close>

theorem post_create_valid:
  assumes "user request = Some u"
    and "is_valid (PostForm v d (or_None (POST request)) (or_None (FILES request)) None)"
  shows "\<exists>p. post_create v request d =
               (Redirect (Profile (username u)),
                d\<lparr>posts := posts d @ [p], next_post_id := Suc (next_post_id d)\<rparr>)
           \<and> author_id p = Some (user_id u)
           \<and> post_id p = Some (next_post_id d)
           \<and> pub_date p = Some (now request)
           \<and> (\<exists>c. cleaned_data (PostForm v d (or_None (POST request)) (or_None (FILES request))
                                  None) = Some c
                 \<and> post_text p = post_text (construct_instance c Post_blank)
                 \<and> group_fk p = group_fk (construct_instance c Post_blank)
                 \<and> post_image p = post_image (construct_instance c Post_blank))
           \<and> length (posts (snd (post_create v request d))) = length (posts d) + 1"
proof -
  from valid_PostForm_save [OF assms(2)] obtain c where
    c: "cleaned_data (PostForm v d (or_None (POST request)) (or_None (FILES request)) None) = Some c"
    and s: "PostForm_save_commit_False
              (PostForm v d (or_None (POST request)) (or_None (FILES request)) None) =
            Inr (construct_instance c Post_blank)"
    by auto
  let ?p = "(construct_instance c Post_blank)
              \<lparr>post_id := Some (next_post_id d), pub_date := Some (now request),
               author_id := Some (user_id u)\<rparr>"
  have b: "post_id (construct_instance c Post_blank) = None"
    by (simp add: construct_instance_def Post_blank_def)
  have r: "post_create v request d =
             (Redirect (Profile (username u)),
              d\<lparr>posts := posts d @ [?p], next_post_id := Suc (next_post_id d)\<rparr>)"
    using assms s b
    by (simp add: post_create_def login_required_def Post_save_def)
  show ?thesis
    by (rule exI [of _ ?p]) (simp add: r c)
qed

theorem post_create_valid_witness:
  "length (posts (snd (post_create PostForm_fields
      (client_request [(''text'', ''Edited text.''), (''group'', ''1'')] [] NoPage) view_db))) = 2
   \<and> fst (post_create PostForm_fields
      (client_request [(''text'', ''Edited text.''), (''group'', ''1'')] [] NoPage) view_db) =
       Redirect (Profile ''test_user'')"
  using post_create_valid [OF client_user valid_submission]
  by (auto simp add: view_db_def test_user_def)

subsection \<open>Editing a post\<close>

text \<open>
  Claim C3. An authenticated user who is not the author of an existing post and requests
  its edit route is redirected to the post's detail page, the response a successful edit
  gives as well, and the store is left as it was, whatever was submitted.
\<close>

theorem post_edit_non_author:
  assumes "user request = Some u"
    and "get_object_or_404 (posts d) (\<lambda>p. post_id p = Some pid) = Inr p"
    and "author_id p \<noteq> Some (user_id u)"
  shows "post_edit v request pid d = (Redirect (Post_detail pid), d)"
  using assms by (simp add: post_edit_def login_required_def)

theorem post_edit_non_author_witness:
  "post_edit PostForm_fields
     (\<lparr>user = Some author, POST = [(''text'', ''Mine now'')], FILES = [], GET_page = NoPage,
       now = 200\<rparr>) 1 view_db = (Redirect (Post_detail 1), view_db)"
proof -
  have a: "user \<lparr>user = Some author, POST = [(''text'', ''Mine now'')], FILES = [],
             GET_page = NoPage, now = 200\<rparr> = Some author" by simp
  have n: "author_id test_post \<noteq> Some (user_id author)"
    by (simp add: test_post_def author_def)
  from post_edit_non_author [OF a view_post_1 n] show ?thesis .
qed

text \<open>
  Claim C4 says that after a valid edit by the author the stored text, group and image
  equal the submitted values. As stated this fails: the author of a post that has a
  stored image submits a text with a space on either side, the group and no file; the
  stored text is the submitted one without the spaces, and the stored image is the one
  of before, though none was submitted.
\<close>

theorem post_edit_strips_text_keeps_image:
  "QueryDict_get (POST (client_request [(''text'', '' Edited text. ''), (''group'', ''1'')] []
      NoPage)) ''text'' = Some '' Edited text. ''
   \<and> QueryDict_get (FILES (client_request [(''text'', '' Edited text. ''), (''group'', ''1'')] []
      NoPage)) ''image'' = None
   \<and> is_valid (PostForm PostForm_fields image_db
      (or_None (POST (client_request [(''text'', '' Edited text. ''), (''group'', ''1'')] [] NoPage)))
      (or_None (FILES (client_request [(''text'', '' Edited text. ''), (''group'', ''1'')] [] NoPage)))
      (Some image_post))
   \<and> get_object_or_404
       (posts (snd (post_edit PostForm_fields
          (client_request [(''text'', '' Edited text. ''), (''group'', ''1'')] [] NoPage) 1 image_db)))
       (\<lambda>q. post_id q = Some 1) =
     Inr \<lparr>post_id = Some 1, post_text = ''Edited text.'', pub_date = Some 100,
          author_id = Some 2, group_fk = Some 1, post_image = Some ''posts/small.gif''\<rparr>"
proof -
  let ?r = "client_request [(''text'', '' Edited text. ''), (''group'', ''1'')] [] NoPage"
  have a: "author_id image_post = Some (user_id test_user)"
    by (simp add: image_post_def test_user_def)
  have d: "POST ?r = [(''text'', '' Edited text. ''), (''group'', ''1'')]" "FILES ?r = []"
    by (simp_all add: client_request_def)
  from post_edit_valid [OF client_user image_post_1 a valid_padded]
  obtain p' where
    g: "get_object_or_404 (posts (snd (post_edit PostForm_fields ?r 1 image_db)))
          (\<lambda>q. post_id q = Some 1) = Inr p'"
    and f: "post_text p' = submitted_text (POST ?r)"
      "submitted_group (POST ?r) = Some (map_option int (group_fk p'))"
      "post_image p' =
         (if checkbox_value (POST ?r) ''image-clear'' then None
          else case QueryDict_get (FILES ?r) ''image'' of
                 None \<Rightarrow> post_image image_post
               | Some f \<Rightarrow> Some (upload_name f))"
      "author_id p' = author_id image_post" "post_id p' = post_id image_post"
      "pub_date p' = pub_date image_post"
    by blast
  have "group_fk p' = Some 1"
    using f(2) by (cases "group_fk p'") (simp_all add: d submitted_padded)
  then have "p' = \<lparr>post_id = Some 1, post_text = ''Edited text.'', pub_date = Some 100,
        author_id = Some 2, group_fk = Some 1, post_image = Some ''posts/small.gif''\<rparr>"
    using f by (cases p') (simp add: d submitted_padded QueryDict_get_def image_post_def)
  with g valid_padded show ?thesis
    by (simp add: d QueryDict_get_def)
qed

text \<open>
  Claim C4, amended. An existing post edited by its own author with a valid submission:
  afterwards the stored row of that key has the submitted text without the white space
  around it, the submitted group (none when the key is absent or empty), and as image
  the uploaded file, or none when the clear box is ticked, or else the image of before;
  the author, key and creation time are those of before, and the rows of other keys and
  the other tables are untouched.
\<close>

theorem post_edit_by_author:
  assumes "user request = Some u"
    and "get_object_or_404 (posts d) (\<lambda>q. post_id q = Some pid) = Inr p"
    and "author_id p = Some (user_id u)"
    and "is_valid (PostForm PostForm_fields d (or_None (POST request))
                     (or_None (FILES request)) (Some p))"
  shows "\<exists>p'. post_edit PostForm_fields request pid d =
                 (Redirect (Post_detail pid),
                  d\<lparr>posts := map (\<lambda>q. if post_id q = Some pid then p' else q) (posts d)\<rparr>)
           \<and> get_object_or_404 (posts (snd (post_edit PostForm_fields request pid d)))
                (\<lambda>q. post_id q = Some pid) = Inr p'
           \<and> post_text p' = submitted_text (POST request)
           \<and> submitted_group (POST request) = Some (map_option int (group_fk p'))
           \<and> post_image p' =
               (if checkbox_value (POST request) ''image-clear'' then None
                else case QueryDict_get (FILES request) ''image'' of
                       None \<Rightarrow> post_image p
                     | Some f \<Rightarrow> Some (upload_name f))
           \<and> author_id p' = author_id p \<and> post_id p' = post_id p \<and> pub_date p' = pub_date p"
  by (rule post_edit_valid [OF assms])

theorem post_edit_by_author_witness:
  "get_object_or_404
     (posts (snd (post_edit PostForm_fields
        (client_request [(''text'', ''Edited text.''), (''group'', ''1'')] [] NoPage) 1 view_db)))
     (\<lambda>q. post_id q = Some 1) =
   Inr \<lparr>post_id = Some 1, post_text = ''Edited text.'', pub_date = Some 100,
        author_id = Some 2, group_fk = Some 1, post_image = None\<rparr>
   \<and> get_object_or_404
     (posts (snd (post_edit PostForm_fields
        (client_request [(''text'', ''Edited text.''), (''group'', ''1'')]
           [(''image'', \<lparr>upload_name = ''new.gif'', upload_ok = True\<rparr>)] NoPage) 1 image_db)))
     (\<lambda>q. post_id q = Some 1) =
   Inr \<lparr>post_id = Some 1, post_text = ''Edited text.'', pub_date = Some 100,
        author_id = Some 2, group_fk = Some 1, post_image = Some ''new.gif''\<rparr>"
proof (rule conjI)
  show "get_object_or_404
     (posts (snd (post_edit PostForm_fields
        (client_request [(''text'', ''Edited text.''), (''group'', ''1'')] [] NoPage) 1 view_db)))
     (\<lambda>q. post_id q = Some 1) =
   Inr \<lparr>post_id = Some 1, post_text = ''Edited text.'', pub_date = Some 100,
        author_id = Some 2, group_fk = Some 1, post_image = None\<rparr>"
  proof -
    let ?r = "client_request [(''text'', ''Edited text.''), (''group'', ''1'')] [] NoPage"
    have a: "author_id test_post = Some (user_id test_user)"
      by (simp add: test_post_def test_user_def)
    have d: "POST ?r = [(''text'', ''Edited text.''), (''group'', ''1'')]" "FILES ?r = []"
      by (simp_all add: client_request_def)
    from post_edit_by_author [OF client_user view_post_1 a valid_submission]
    obtain p' where
      g: "get_object_or_404 (posts (snd (post_edit PostForm_fields ?r 1 view_db)))
            (\<lambda>q. post_id q = Some 1) = Inr p'"
      and f: "post_text p' = submitted_text (POST ?r)"
        "submitted_group (POST ?r) = Some (map_option int (group_fk p'))"
        "post_image p' =
           (if checkbox_value (POST ?r) ''image-clear'' then None
            else case QueryDict_get (FILES ?r) ''image'' of
                   None \<Rightarrow> post_image test_post
                 | Some f \<Rightarrow> Some (upload_name f))"
        "author_id p' = author_id test_post" "post_id p' = post_id test_post"
        "pub_date p' = pub_date test_post"
      by blast
    have "group_fk p' = Some 1"
      using f(2) by (cases "group_fk p'") (simp_all add: d submitted_edit)
    then have "p' = \<lparr>post_id = Some 1, post_text = ''Edited text.'', pub_date = Some 100,
          author_id = Some 2, group_fk = Some 1, post_image = None\<rparr>"
      using f by (cases p') (simp add: d submitted_edit QueryDict_get_def test_post_def)
    with g show ?thesis by simp
  qed
next
  show "get_object_or_404
     (posts (snd (post_edit PostForm_fields
        (client_request [(''text'', ''Edited text.''), (''group'', ''1'')]
           [(''image'', \<lparr>upload_name = ''new.gif'', upload_ok = True\<rparr>)] NoPage) 1 image_db)))
     (\<lambda>q. post_id q = Some 1) =
   Inr \<lparr>post_id = Some 1, post_text = ''Edited text.'', pub_date = Some 100,
        author_id = Some 2, group_fk = Some 1, post_image = Some ''new.gif''\<rparr>"
  proof -
    let ?r = "client_request [(''text'', ''Edited text.''), (''group'', ''1'')]
                [(''image'', \<lparr>upload_name = ''new.gif'', upload_ok = True\<rparr>)] NoPage"
    have a: "author_id image_post = Some (user_id test_user)"
      by (simp add: image_post_def test_user_def)
    have d: "POST ?r = [(''text'', ''Edited text.''), (''group'', ''1'')]"
      "FILES ?r = [(''image'', \<lparr>upload_name = ''new.gif'', upload_ok = True\<rparr>)]"
      by (simp_all add: client_request_def)
    from post_edit_by_author [OF client_user image_post_1 a valid_upload]
    obtain p' where
      g: "get_object_or_404 (posts (snd (post_edit PostForm_fields ?r 1 image_db)))
            (\<lambda>q. post_id q = Some 1) = Inr p'"
      and f: "post_text p' = submitted_text (POST ?r)"
        "submitted_group (POST ?r) = Some (map_option int (group_fk p'))"
        "post_image p' =
           (if checkbox_value (POST ?r) ''image-clear'' then None
            else case QueryDict_get (FILES ?r) ''image'' of
                   None \<Rightarrow> post_image image_post
                 | Some f \<Rightarrow> Some (upload_name f))"
        "author_id p' = author_id image_post" "post_id p' = post_id image_post"
        "pub_date p' = pub_date image_post"
      by blast
    have "group_fk p' = Some 1"
      using f(2) by (cases "group_fk p'") (simp_all add: d submitted_edit)
    then have "p' = \<lparr>post_id = Some 1, post_text = ''Edited text.'', pub_date = Some 100,
          author_id = Some 2, group_fk = Some 1, post_image = Some ''new.gif''\<rparr>"
      using f by (cases p') (simp add: d submitted_edit QueryDict_get_def image_post_def)
    with g show ?thesis by simp
  qed
qed

text \<open>
  Claim C10. A request of an authenticated user that carries no form data and no files
  never creates or changes a Post: the form is unbound, hence not valid, so the creation
  route renders the form page, the edit route leaves the store alone for every key, and
  for a post of the requester it renders the form page in editing mode.
\<close>

theorem get_requests_change_nothing:
  assumes "user request = Some u" and "POST request = []" and "FILES request = []"
  shows "post_create v request d =
           (Render ''posts/create_post.html'' (Form_ctx (PostForm v d None None None)), d)
       \<and> snd (post_edit v request pid d) = d
       \<and> (\<forall>p. get_object_or_404 (posts d) (\<lambda>q. post_id q = Some pid) = Inr p
               \<and> author_id p = Some (user_id u) \<longrightarrow>
             post_edit v request pid d =
               (Render ''posts/create_post.html'' (Edit_ctx True (PostForm v d None None (Some p))), d))
       \<and> \<not> is_valid (PostForm v d None None inst)"
  using assms
  by (auto simp add: post_create_def post_edit_def login_required_def or_None_empty
      unbound_PostForm_invalid Let_def split: sum.splits)

theorem get_requests_change_nothing_witness:
  "snd (post_create PostForm_fields (client_request [] [] NoPage) view_db) = view_db
   \<and> post_edit PostForm_fields (client_request [] [] NoPage) 1 view_db =
       (Render ''posts/create_post.html''
          (Edit_ctx True (PostForm PostForm_fields view_db None None (Some test_post))), view_db)"
proof -
  have p: "POST (client_request [] [] NoPage) = []" and f: "FILES (client_request [] [] NoPage) = []"
    by (simp_all add: client_request_def)
  have a: "author_id test_post = Some (user_id test_user)"
    by (simp add: test_post_def test_user_def)
  show ?thesis
    using get_requests_change_nothing [OF client_user p f, of PostForm_fields view_db 1 None]
      view_post_1 a
    by simp
qed

subsection \<open>Comments\<close>

text \<open>
  Claim C2. An authenticated user commenting on an existing post is redirected to the
  post's detail page whatever the validation says. A valid text first adds exactly one
  Comment, of that post and that user; an invalid one adds nothing, and the redirect
  carries no error.
\<close>

theorem add_comment_redirects:
  assumes "user request = Some u"
    and "get_object_or_404 (posts d) (\<lambda>p. post_id p = Some pid) = Inr post"
  shows "fst (add_comment v request pid d) = Redirect (Post_detail pid)
       \<and> (is_valid (CommentForm v d (or_None (POST request))) \<longrightarrow>
            (\<exists>c. snd (add_comment v request pid d) =
                    d\<lparr>comments := comments d @ [c], next_comment_id := Suc (next_comment_id d)\<rparr>
                \<and> comment_post c = Some pid
                \<and> comment_author c = Some (user_id u)
                \<and> cleaned_data (CommentForm v d (or_None (POST request))) = Some (comment_text c)))
       \<and> (\<not> is_valid (CommentForm v d (or_None (POST request))) \<longrightarrow>
            snd (add_comment v request pid d) = d)"
proof (cases "is_valid (CommentForm v d (or_None (POST request)))")
  case False
  then show ?thesis
    using assms by (simp add: add_comment_def login_required_def)
next
  case True
  from valid_CommentForm_save [OF True] obtain t where
    t: "cleaned_data (CommentForm v d (or_None (POST request))) = Some t"
    and s: "CommentForm_save_commit_False (CommentForm v d (or_None (POST request))) =
              Inr (Comment_blank\<lparr>comment_text := t\<rparr>)"
    by auto
  have pid: "post_id post = Some pid"
    using get_object_or_404_holds [OF assms(2)] by simp
  let ?c = "\<lparr>comment_id = Some (next_comment_id d), comment_post = Some pid,
              comment_author = Some (user_id u), comment_text = t,
              created = Some (now request)\<rparr>"
  have r: "add_comment v request pid d =
             (Redirect (Post_detail pid),
              d\<lparr>comments := comments d @ [?c], next_comment_id := Suc (next_comment_id d)\<rparr>)"
    using assms True s pid
    by (simp add: add_comment_def login_required_def Comment_save_def Comment_blank_def)
  have "\<exists>c. snd (add_comment v request pid d) =
                    d\<lparr>comments := comments d @ [c], next_comment_id := Suc (next_comment_id d)\<rparr>
                \<and> comment_post c = Some pid
                \<and> comment_author c = Some (user_id u)
                \<and> cleaned_data (CommentForm v d (or_None (POST request))) = Some (comment_text c)"
    by (rule exI [of _ ?c]) (simp add: r t)
  then show ?thesis using True r by simp
qed

theorem add_comment_redirects_witness:
  "fst (add_comment CommentForm_fields (client_request [(''text'', ''test comment'')] [] NoPage)
          1 view_db) = Redirect (Post_detail 1)
   \<and> length (comments (snd (add_comment CommentForm_fields
          (client_request [(''text'', ''test comment'')] [] NoPage) 1 view_db))) = 1
   \<and> snd (add_comment CommentForm_fields (client_request [(''text'', [])] [] NoPage) 1 view_db) =
       view_db"
proof -
  have v: "is_valid (CommentForm CommentForm_fields view_db
             (or_None (POST (client_request [(''text'', ''test comment'')] [] NoPage))))"
    by (simp add: is_valid_def CommentForm_def CommentForm_fields_def client_request_def
        or_None_def is_not_None_def unwrap_def clean_text_def submitted_text_def
        QueryDict_get_def strip_def isspace_def Let_def)
  have i: "\<not> is_valid (CommentForm CommentForm_fields view_db
             (or_None (POST (client_request [(''text'', [])] [] NoPage))))"
    by (simp add: is_valid_def CommentForm_def CommentForm_fields_def client_request_def
        or_None_def is_not_None_def unwrap_def clean_text_def submitted_text_def
        QueryDict_get_def strip_def isspace_def Let_def)
  have e: "comments view_db = []" by (simp add: view_db_def)
  show ?thesis
    using add_comment_redirects [OF client_user view_post_1, of CommentForm_fields
        "[(''text'', ''test comment'')]" "[]" NoPage]
      add_comment_redirects [OF client_user view_post_1, of CommentForm_fields
        "[(''text'', [])]" "[]" NoPage] v i e
    by auto
qed

subsection \<open>Listings\<close>

text \<open>
  Claim C5 says that on each listing route over a filtered sequence of \<open>n\<close> posts the
  page for page number \<open>p\<close> holds exactly \<open>min 10 (n - 10 * (p - 1))\<close> posts when that
  number is positive. As stated this fails for a page number below one: with thirteen
  posts, the request \<^verbatim>\<open>?page=0\<close> makes the number ten, and the paginator answers with
  its last page, of three posts.
\<close>

theorem listing_page_zero:
  "GET_page (client_request [] [] (PageNum 0)) = PageNum 0
   \<and> count (Post_objects_all paginator_db) = 13
   \<and> min 10 (count (Post_objects_all paginator_db) - 10 * (0 - 1)) = 10
   \<and> page_obj_len (index (client_request [] [] (PageNum 0)) paginator_db) = Some 3"
proof -
  have n: "num_pages (Post_objects_all paginator_db) 10 = 2"
    using paginator_all by (simp add: num_pages_def)
  have g: "get_page (Post_objects_all paginator_db) 10 (PageNum 0) =
             page (Post_objects_all paginator_db) 10 2"
    by (simp add: get_page_def validate_number_def n)
  have "\<exists>pg. page (Post_objects_all paginator_db) 10 2 = Inr pg \<and> count (object_list pg) = 3"
    using get_page_length [of "PageNum 2" 2 "Post_objects_all paginator_db"] paginator_all
    by (simp add: get_page_def validate_number_def n)
  then show ?thesis
    using paginator_all
    by (auto simp add: index_def g page_obj_len_def client_request_def)
qed

text \<open>
  Claim C5, amended. On each listing route (index, group, profile, follow feed) over a
  filtered sequence of \<open>n\<close> posts, the page for a page number \<open>p\<close> of at least one (a
  request without a page parameter asks for page one) holds exactly
  \<open>min 10 (n - 10 * (p - 1))\<close> posts when that number is positive. Thirteen posts give
  ten on page one and three on page two.
\<close>

theorem listing_page_size:
  assumes "page_requested request = p" and "1 \<le> p"
  shows "(0 < min 10 (count (Post_objects_all d) - 10 * (p - 1)) \<longrightarrow>
            page_obj_len (index request d) =
              Some (min 10 (count (Post_objects_all d) - 10 * (p - 1))))
       \<and> (\<forall>g. get_object_or_404 (groups d) (\<lambda>g. slug g = s) = Inr g
               \<and> 0 < min 10 (count (group_posts_list d g) - 10 * (p - 1)) \<longrightarrow>
             page_obj_len (group_posts request s d) =
               Some (min 10 (count (group_posts_list d g) - 10 * (p - 1))))
       \<and> (\<forall>a. get_object_or_404 (users d) (\<lambda>w. username w = name) = Inr a
               \<and> 0 < min 10 (count (author_posts d a) - 10 * (p - 1)) \<longrightarrow>
             page_obj_len (profile request name d) =
               Some (min 10 (count (author_posts d a) - 10 * (p - 1))))
       \<and> (\<forall>u. user request = Some u
               \<and> 0 < min 10 (count (feed_posts d u) - 10 * (p - 1)) \<longrightarrow>
             page_obj_len (follow_index request d) =
               Some (min 10 (count (feed_posts d u) - 10 * (p - 1))))"
proof -
  have pr: "(case GET_page request of PageNum k \<Rightarrow> k | _ \<Rightarrow> 1) = p"
    using assms(1) by (simp add: page_requested_def)
  show ?thesis
  proof (intro conjI allI impI)
  assume "0 < min 10 (count (Post_objects_all d) - 10 * (p - 1))"
  from get_page_length [OF pr assms(2) this]
  show "page_obj_len (index request d) =
          Some (min 10 (count (Post_objects_all d) - 10 * (p - 1)))"
    by (auto simp add: index_def page_obj_len_def)
next
  fix g
  assume "get_object_or_404 (groups d) (\<lambda>g. slug g = s) = Inr g
            \<and> 0 < min 10 (count (group_posts_list d g) - 10 * (p - 1))"
  then have g: "get_object_or_404 (groups d) (\<lambda>g. slug g = s) = Inr g"
    and n: "0 < min 10 (count (group_posts_list d g) - 10 * (p - 1))" by simp_all
  from get_page_length [OF pr assms(2) n] g
  show "page_obj_len (group_posts request s d) =
          Some (min 10 (count (group_posts_list d g) - 10 * (p - 1)))"
    by (auto simp add: group_posts_def page_obj_len_def)
next
  fix a
  assume "get_object_or_404 (users d) (\<lambda>w. username w = name) = Inr a
            \<and> 0 < min 10 (count (author_posts d a) - 10 * (p - 1))"
  then have a: "get_object_or_404 (users d) (\<lambda>w. username w = name) = Inr a"
    and n: "0 < min 10 (count (author_posts d a) - 10 * (p - 1))" by simp_all
  from get_page_length [OF pr assms(2) n] a
  show "page_obj_len (profile request name d) =
          Some (min 10 (count (author_posts d a) - 10 * (p - 1)))"
    by (auto simp add: profile_def page_obj_len_def Let_def)
next
  fix u
  assume "user request = Some u \<and> 0 < min 10 (count (feed_posts d u) - 10 * (p - 1))"
  then have u: "user request = Some u"
    and n: "0 < min 10 (count (feed_posts d u) - 10 * (p - 1))" by simp_all
  from get_page_length [OF pr assms(2) n] u
  show "page_obj_len (follow_index request d) =
          Some (min 10 (count (feed_posts d u) - 10 * (p - 1)))"
    by (auto simp add: follow_index_def page_obj_len_def)
qed
qed

theorem listing_page_size_witness:
  "page_obj_len (index (client_request [] [] (PageNum 1)) paginator_db) = Some 10
   \<and> page_obj_len (index (client_request [] [] (PageNum 2)) paginator_db) = Some 3
   \<and> page_obj_len (group_posts (client_request [] [] (PageNum 1)) ''test-slug'' paginator_db) = Some 10
   \<and> page_obj_len (group_posts (client_request [] [] (PageNum 2)) ''test-slug'' paginator_db) = Some 3
   \<and> page_obj_len (profile (client_request [] [] (PageNum 1)) ''author'' paginator_db) = Some 10
   \<and> page_obj_len (profile (client_request [] [] (PageNum 2)) ''author'' paginator_db) = Some 3
   \<and> page_obj_len (follow_index (client_request [] [] (PageNum 1)) paginator_db) = Some 10
   \<and> page_obj_len (follow_index (client_request [] [] (PageNum 2)) paginator_db) = Some 3
   \<and> page_obj_len (index (client_request [] [] NoPage) paginator_db) = Some 10
   \<and> page_obj_len (group_posts (client_request [] [] NoPage) ''test-slug'' paginator_db) = Some 10
   \<and> page_obj_len (profile (client_request [] [] NoPage) ''author'' paginator_db) = Some 10
   \<and> page_obj_len (follow_index (client_request [] [] NoPage) paginator_db) = Some 10"
proof -
  have r: "page_requested (client_request [] [] (PageNum k)) = k"
    "user (client_request [] [] a) = Some test_user" for k a
    by (simp_all add: client_request_def page_requested_def)
  have z: "page_requested (client_request [] [] NoPage) = 1"
    by (simp add: client_request_def page_requested_def)
  have one: "(1::int) \<le> 1" and two: "(1::int) \<le> 2" by simp_all
  show ?thesis
    using listing_page_size [OF r(1) one, of paginator_db "''test-slug''" "''author''"]
      listing_page_size [OF r(1) two, of paginator_db "''test-slug''" "''author''"]
      listing_page_size [OF z one, of paginator_db "''test-slug''" "''author''"]
    by (simp add: r paginator_all paginator_group paginator_group_count paginator_author
        paginator_author_count paginator_feed_count)
qed

subsection \<open>Following\<close>

text \<open>
  Claim C7 says that the follow handler redirects to the target's profile in every case.
  As stated this fails in a store that already holds two Follow rows of the pair, which
  the data layer does not exclude: \<^verbatim>\<open>get_or_create\<close> raises, and the handler with it.
\<close>

theorem profile_follow_two_rows_raises:
  "user (client_request [] [] NoPage) = Some test_user
   \<and> get_object_or_404 (users duplicate_db) (\<lambda>w. username w = ''author'') = Inr author
   \<and> length (Follow_filter (user_id test_user) (user_id author) duplicate_db) = 2
   \<and> profile_follow (client_request [] [] NoPage) ''author'' duplicate_db =
       (Raised MultipleObjectsReturned, duplicate_db)"
proof -
  have g: "get_object_or_404 (users duplicate_db) (\<lambda>w. username w = ''author'') = Inr author"
    by (simp add: get_object_or_404_def duplicate_db_def author_def test_user_def)
  have f: "Follow_filter (user_id test_user) (user_id author) duplicate_db =
             [\<lparr>follow_id = 1, follow_user = 2, follow_author = 1\<rparr>,
              \<lparr>follow_id = 2, follow_user = 2, follow_author = 1\<rparr>]"
    by (simp add: Follow_filter_def duplicate_db_def author_def test_user_def)
  have n: "user_id test_user \<noteq> user_id author"
    by (simp add: author_def test_user_def)
  show ?thesis
    using n by (simp add: profile_follow_step [OF client_user g] client_user g f)
qed

text \<open>
  Claim C7, amended. For an authenticated requester and an existing target: following
  oneself changes nothing; however often the follow request is repeated, it adds a
  Follow row of the pair only when there was none, and then exactly one; and in a store
  that holds at most one row of the pair (which is what the handlers leave behind) the
  pair never has more than one, and every one of the requests is answered by the
  redirect to the target's profile.
\<close>

theorem profile_follow_at_most_one:
  assumes "user request = Some u"
    and "get_object_or_404 (users d) (\<lambda>w. username w = name) = Inr t"
  shows "(user_id u = user_id t \<longrightarrow> snd (profile_follow request name d) = d)
       \<and> length (Follow_filter (user_id u) (user_id t)
                   (((\<lambda>x. snd (profile_follow request name x)) ^^ k) d)) =
           (if user_id u \<noteq> user_id t \<and> 0 < k \<and> Follow_filter (user_id u) (user_id t) d = []
            then 1 else length (Follow_filter (user_id u) (user_id t) d))
       \<and> (length (Follow_filter (user_id u) (user_id t) d) \<le> 1 \<longrightarrow>
            length (Follow_filter (user_id u) (user_id t)
                     (((\<lambda>x. snd (profile_follow request name x)) ^^ k) d)) \<le> 1
            \<and> fst (profile_follow request name
                     (((\<lambda>x. snd (profile_follow request name x)) ^^ k) d)) =
                Redirect (Profile name))"
proof -
  let ?dk = "((\<lambda>x. snd (profile_follow request name x)) ^^ k) d"
  have g: "get_object_or_404 (users ?dk) (\<lambda>w. username w = name) = Inr t"
    using profile_follow_repeat_users [OF assms, of k] assms(2) by simp
  have c: "length (Follow_filter (user_id u) (user_id t) ?dk) =
           (if user_id u \<noteq> user_id t \<and> 0 < k \<and> Follow_filter (user_id u) (user_id t) d = []
            then 1 else length (Follow_filter (user_id u) (user_id t) d))"
    by (rule profile_follow_repeat_count [OF assms])
  have same: "user_id u = user_id t \<longrightarrow> snd (profile_follow request name d) = d"
    by (simp add: profile_follow_step [OF assms])
  have red: "length (Follow_filter (user_id u) (user_id t) ?dk) \<le> 1
               \<and> fst (profile_follow request name ?dk) = Redirect (Profile name)"
    if one: "length (Follow_filter (user_id u) (user_id t) d) \<le> 1"
  proof -
    have le: "length (Follow_filter (user_id u) (user_id t) ?dk) \<le> 1"
      using c one by (simp split: if_splits)
    have "fst (profile_follow request name ?dk) = Redirect (Profile name)"
    proof (cases "Follow_filter (user_id u) (user_id t) ?dk")
      case Nil
      then show ?thesis by (simp add: profile_follow_step [OF assms(1) g])
    next
      case (Cons a as)
      with le have "as = []" by simp
      with Cons show ?thesis by (simp add: profile_follow_step [OF assms(1) g])
    qed
    with le show ?thesis by simp
  qed
  from same c red show ?thesis by blast
qed

theorem profile_follow_at_most_one_witness:
  "length (Follow_filter (user_id test_user) (user_id author)
     (((\<lambda>x. snd (profile_follow (client_request [] [] NoPage) ''author'' x)) ^^ 3) view_db)) = 1
   \<and> fst (profile_follow (client_request [] [] NoPage) ''author''
       (((\<lambda>x. snd (profile_follow (client_request [] [] NoPage) ''author'' x)) ^^ 3) view_db)) =
       Redirect (Profile ''author'')
   \<and> profile_follow (client_request [] [] NoPage) ''test_user'' view_db =
       (Redirect (Profile ''test_user''), view_db)"
proof -
  have le: "length (Follow_filter (user_id test_user) b view_db) \<le> 1" for b
    by (simp add: view_no_follows)
  have ne: "user_id test_user \<noteq> user_id author"
    by (simp add: test_user_def author_def)
  show ?thesis
    using profile_follow_at_most_one [OF client_user view_user_author, of "[]" "[]" NoPage 3]
      profile_follow_at_most_one [OF client_user view_user_self, of "[]" "[]" NoPage 0]
      ne le
    by (auto simp add: view_no_follows prod_eq_iff)
qed

text \<open>
  Claim C8. For an authenticated requester and an existing target, different from the
  requester and not yet followed by them: following adds one Follow row, and unfollowing
  afterwards gives back exactly the Follow rows there were.
\<close>

theorem follow_then_unfollow:
  assumes "user request = Some u"
    and "get_object_or_404 (users d) (\<lambda>w. username w = name) = Inr t"
    and "user_id u \<noteq> user_id t"
    and "Follow_filter (user_id u) (user_id t) d = []"
  shows "length (follows (snd (profile_follow request name d))) = length (follows d) + 1
       \<and> follows (snd (profile_unfollow request name (snd (profile_follow request name d)))) =
           follows d
       \<and> fst (profile_unfollow request name (snd (profile_follow request name d))) =
           Redirect (Profile name)"
proof -
  let ?new = "\<lparr>follow_id = next_follow_id d, follow_user = user_id u, follow_author = user_id t\<rparr>"
  let ?d1 = "d\<lparr>follows := follows d @ [?new], next_follow_id := Suc (next_follow_id d)\<rparr>"
  have f1: "snd (profile_follow request name d) = ?d1"
    using assms(3,4) by (simp add: profile_follow_step [OF assms(1,2)])
  have ft: "filter (\<lambda>w. username w = name) (users d) = [t]"
    using assms(2) by (simp add: get_object_or_404_Inr)
  have tn: "username t = name" and tm: "t \<in> set (users d)"
    using get_object_or_404_holds [OF assms(2)] by simp_all
  have only_t: "w = t" if "w \<in> set (users d)" "username w = name" for w
  proof -
    from that have "w \<in> set (filter (\<lambda>w. username w = name) (users d))" by simp
    with ft show ?thesis by simp
  qed
  have old: "\<not> unfollow_match ?d1 u name f" if "f \<in> set (follows d)" for f
  proof
    assume m: "unfollow_match ?d1 u name f"
    then obtain w where w: "w \<in> set (users d)" "user_id w = follow_author f" "username w = name"
      and fu: "follow_user f = user_id u"
      by (auto simp add: unfollow_match_def list_ex_iff)
    from only_t [OF w(1) w(3)] w(2) have "follow_author f = user_id t" by simp
    with fu that have "f \<in> set (Follow_filter (user_id u) (user_id t) d)"
      by (simp add: Follow_filter_def)
    with assms(4) show False by simp
  qed
  have new: "unfollow_match ?d1 u name ?new"
    using tn tm by (auto simp add: unfollow_match_def list_ex_iff)
  have keep: "filter (\<lambda>f. \<not> unfollow_match ?d1 u name f) (follows d) = follows d"
    using old by (simp add: filter_id_conv)
  show ?thesis
    using assms(1) new keep
    by (simp add: f1 profile_unfollow_def login_required_def)
qed

theorem follow_then_unfollow_witness:
  "length (follows (snd (profile_follow (client_request [] [] NoPage) ''author'' view_db))) = 1
   \<and> follows (snd (profile_unfollow (client_request [] [] NoPage) ''author''
        (snd (profile_follow (client_request [] [] NoPage) ''author'' view_db)))) = []"
proof -
  have ne: "user_id test_user \<noteq> user_id author"
    by (simp add: test_user_def author_def)
  have e: "follows view_db = []" by (simp add: view_db_def)
  show ?thesis
    using follow_then_unfollow [OF client_user view_user_author ne view_no_follows,
        of "[]" "[]" NoPage] e
    by simp
qed

text \<open>
  Claim C9. For an authenticated requester the unfollow handler always redirects to the
  profile of the given name. When no user bears the name it deletes nothing, where the
  follow handler answers not found.
\<close>

theorem profile_unfollow_never_404:
  assumes "user request = Some u"
  shows "fst (profile_unfollow request name d) = Redirect (Profile name)
       \<and> (filter (\<lambda>w. username w = name) (users d) = [] \<longrightarrow>
            snd (profile_unfollow request name d) = d
            \<and> profile_follow request name d = (Raised Http404, d))"
proof -
  have r: "fst (profile_unfollow request name d) = Redirect (Profile name)"
    using assms by (simp add: profile_unfollow_def login_required_def)
  have z: "snd (profile_unfollow request name d) = d
            \<and> profile_follow request name d = (Raised Http404, d)"
    if e: "filter (\<lambda>w. username w = name) (users d) = []"
  proof -
    from e have "\<forall>w\<in>set (users d). username w \<noteq> name"
      by (simp add: filter_empty_conv)
    then have "\<not> unfollow_match d u name f" for f
      by (auto simp add: unfollow_match_def list_ex_iff)
    then have "filter (\<lambda>f. \<not> unfollow_match d u name f) (follows d) = follows d"
      by simp
    moreover have "get_object_or_404 (users d) (\<lambda>w. username w = name) = Inl Http404"
      using e by (simp add: get_object_or_404_404)
    ultimately show ?thesis
      using assms by (simp add: profile_unfollow_def profile_follow_def login_required_def)
  qed
  from r z show ?thesis by blast
qed

theorem profile_unfollow_never_404_witness:
  "profile_unfollow (client_request [] [] NoPage) ''nobody'' view_db =
     (Redirect (Profile ''nobody''), view_db)
   \<and> profile_follow (client_request [] [] NoPage) ''nobody'' view_db = (Raised Http404, view_db)"
proof -
  have n: "filter (\<lambda>w. username w = ''nobody'') (users view_db) = []"
    by (simp add: view_db_def author_def test_user_def)
  show ?thesis
    using profile_unfollow_never_404 [OF client_user, of "[]" "[]" NoPage "''nobody''" view_db] n
    by (simp add: prod_eq_iff)
qed

end
